theory Spec2Isabelle
  imports Complex_Main "HOL-Library.Word"
begin

unbundle bit_operations_syntax

section \<open>The message kinds\<close>

text \<open>
  \<^verbatim>\<open>enum messageTypes {WAVELEN0, BANK0, BANK1, CTRL, CTRL0, ..., METAMOD8};\<close>
  An unscoped enumeration without initialisers: the first enumerator has the value 0 and
  every later one the value of its predecessor plus one. The declaration is kept as the
  list of its enumerators, in the order of the source, and the value of an enumerator is
  its position in that list.
\<close>

datatype messageTypes =
    WAVELEN0 | BANK0 | BANK1 | CTRL
  | CTRL0 | CTRL1 | CTRL2 | CTRL3 | CTRL4 | CTRL5 | DETUNE | OCTSPREAD
  | METAMOD3 | METAMOD4 | METAMOD5 | METAMOD6 | METAMOD7 | METAMOD8

definition messageTypes_decl :: "messageTypes list" where
  "messageTypes_decl =
     [WAVELEN0, BANK0, BANK1, CTRL,
      CTRL0, CTRL1, CTRL2, CTRL3, CTRL4, CTRL5, DETUNE, OCTSPREAD,
      METAMOD3, METAMOD4, METAMOD5, METAMOD6, METAMOD7, METAMOD8]"

fun enum_position :: "'a list \<Rightarrow> 'a \<Rightarrow> nat" where
  "enum_position [] k = 0"
| "enum_position (e # es) k = (if e = k then 0 else Suc (enum_position es k))"

definition ordinal :: "messageTypes \<Rightarrow> nat" where
  "ordinal k = enum_position messageTypes_decl k"

section \<open>The packet\<close>

text \<open>
  \<^verbatim>\<open>constexpr uint8_t MAGIC_BYTE = 0b10101010;\<close>
\<close>

definition MAGIC_BYTE :: "8 word" where
  "MAGIC_BYTE = 0b10101010"

text \<open>
  A \<^verbatim>\<open>float\<close> is kept as its IEEE 754 binary32 bit pattern: the code only stores
  and loads floats, it never computes with them.
\<close>

datatype float32 = Float32 (float_bits: "32 word")

text \<open>
  The layout of a binary32 pattern: sign bit 31, exponent bits 30..23 (biased by 127),
  fraction bits 22..0. Exponent field 255 holds the infinities and the NaNs; every other
  pattern is a finite float and stands for a rational number.
\<close>

definition float32_isfinite :: "float32 \<Rightarrow> bool" where
  "float32_isfinite f = (unat (take_bit 8 (drop_bit 23 (float_bits f))) \<noteq> 255)"

definition float32_value :: "float32 \<Rightarrow> rat option" where
  "float32_value f =
     (let b = float_bits f;
          e = unat (take_bit 8 (drop_bit 23 b));
          m = unat (take_bit 23 b);
          mag = (if e = 0 then of_nat m / 2 ^ 149
                 else if 127 \<le> e then (1 + of_nat m / 2 ^ 23) * 2 ^ (e - 127)
                 else (1 + of_nat m / 2 ^ 23) / 2 ^ (127 - e))
      in if float32_isfinite f then Some (if bit b 31 then - mag else mag) else None)"

text \<open>
  \<^verbatim>\<open>union { float floatValue; size_t uintValue; } value;\<close>
  The two members share the same storage. The struct is packed and asserted to be 8 bytes
  long, which leaves 4 bytes for the union: \<^verbatim>\<open>size_t\<close> is the 32-bit type of the
  target, and the union is its 32 bits, read and written through either member.
\<close>

type_synonym value_union = "32 word"

definition floatValue :: "value_union \<Rightarrow> float32" where
  "floatValue u = Float32 u"

definition uintValue :: "value_union \<Rightarrow> 32 word" where
  "uintValue u = u"

definition store_floatValue :: "float32 \<Rightarrow> value_union" where
  "store_floatValue x = float_bits x"

definition store_uintValue :: "32 word \<Rightarrow> value_union" where
  "store_uintValue n = n"

text \<open>
  \<^verbatim>\<open>
  struct __attribute__((packed)) msgpacket {
      union {...} value;
      uint8_t msgType;
      const uint8_t magicByte = MAGIC_BYTE;
      uint16_t checksum;
  };\<close>
\<close>

record msgpacket =
  "value" :: value_union
  msgType :: "8 word"
  magicByte :: "8 word"
  checksum :: "16 word"

text \<open>
  Declaring a \<^verbatim>\<open>msgpacket\<close> runs the default member initialiser of
  \<^verbatim>\<open>magicByte\<close> and leaves the other members indeterminate: they are the
  arguments here.
\<close>

definition msgpacket_init :: "value_union \<Rightarrow> 8 word \<Rightarrow> 16 word \<Rightarrow> msgpacket" where
  "msgpacket_init v t c = \<lparr>value = v, msgType = t, magicByte = MAGIC_BYTE, checksum = c\<rparr>"

section \<open>The operations\<close>

text \<open>
  The packet is passed by reference or by pointer and changed in place: an operation takes
  the packet and returns the packet it leaves behind, next to its result if it has one.

  \<^verbatim>\<open>
  void calcCheckSum(msgpacket &msg) {
    uint32_t v = msg.value.uintValue;
    msg.checksum = (uint16_t)(v ^ (v >> 16) ^ msg.msgType);
  }\<close>
  \<^verbatim>\<open>msgType\<close> is widened to the 32 bits of \<^verbatim>\<open>v\<close> before the exclusive or; the
  cast keeps the low 16 bits.
\<close>

definition calcCheckSum :: "msgpacket \<Rightarrow> msgpacket" where
  "calcCheckSum msg =
     (let v = (ucast (uintValue (value msg)) :: 32 word)
      in msg\<lparr>checksum := ucast (v XOR drop_bit 16 v XOR ucast (msgType msg))\<rparr>)"

text \<open>
  \<^verbatim>\<open>
  void createMessage(msgpacket &msg, const float value, const messageTypes msgType) {
    msg.value.floatValue = value;
    msg.msgType = msgType;
    calcCheckSum(msg);
  };\<close>
  The enumerator is converted to \<^verbatim>\<open>uint8_t\<close>, that is modulo 256.
\<close>

definition createMessage_float :: "msgpacket \<Rightarrow> float32 \<Rightarrow> messageTypes \<Rightarrow> msgpacket" where
  "createMessage_float msg x k =
     calcCheckSum (msg\<lparr>value := store_floatValue x, msgType := of_nat (ordinal k)\<rparr>)"

text \<open>
  \<^verbatim>\<open>
  void createMessage(msgpacket &msg, const size_t value, const messageTypes msgType) {
    msg.value.uintValue = value;
    msg.msgType = msgType;
    calcCheckSum(msg);
  };\<close>
\<close>

definition createMessage_size_t :: "msgpacket \<Rightarrow> 32 word \<Rightarrow> messageTypes \<Rightarrow> msgpacket" where
  "createMessage_size_t msg n k =
     calcCheckSum (msg\<lparr>value := store_uintValue n, msgType := of_nat (ordinal k)\<rparr>)"

text \<open>
  \<^verbatim>\<open>
  bool checksumIsOk(msgpacket *msg) {
    uint32_t v = msg->value.uintValue;
    return msg->checksum == (uint16_t)(v ^ (v >> 16) ^ msg->msgType);
  }\<close>
  The pointer is not a pointer to const, so the packet after the call is returned as well.
\<close>

definition checksumIsOk :: "msgpacket \<Rightarrow> bool \<times> msgpacket" where
  "checksumIsOk msg =
     (let v = (ucast (uintValue (value msg)) :: 32 word)
      in (checksum msg = ucast (v XOR drop_bit 16 v XOR ucast (msgType msg)), msg))"

text \<open>
  \<^verbatim>\<open>
  bool magicByteOk(msgpacket *msg) {
    return msg->magicByte == MAGIC_BYTE;
  }\<close>
\<close>

definition magicByteOk :: "msgpacket \<Rightarrow> bool \<times> msgpacket" where
  "magicByteOk msg = (magicByte msg = MAGIC_BYTE, msg)"

section \<open>Notions of the specification\<close>

text \<open>
  The checksum in the words of the specification, on natural numbers: the low 16 bits of
  \<open>v XOR (v >> 16) XOR msgType\<close>.
\<close>

definition checksum_spec :: "nat \<Rightarrow> nat \<Rightarrow> nat" where
  "checksum_spec v t = (v XOR (v div 2 ^ 16) XOR t) mod 2 ^ 16"

text \<open>The float 440.0: sign 0, exponent field 135, fraction \<open>0x5C0000\<close>.\<close>

definition float_440 :: float32 where
  "float_440 = Float32 0x43DC0000"

text \<open>Corruption of a stored packet: one bit of the value field is flipped.\<close>

definition flip_value_bit :: "nat \<Rightarrow> msgpacket \<Rightarrow> msgpacket" where
  "flip_value_bit i msg = msg\<lparr>value := flip_bit i (value msg)\<rparr>"

text \<open>
  Corruption of a stored packet: the same bit positions \<open>m\<close> are flipped in the high and
  in the low half of the value field.
\<close>

definition flip_both_halves :: "16 word \<Rightarrow> msgpacket \<Rightarrow> msgpacket" where
  "flip_both_halves m msg =
     msg\<lparr>value := value msg XOR (push_bit 16 (ucast m) OR ucast m)\<rparr>"

section \<open>Auxiliary facts\<close>

lemma ordinal_simps:
  "ordinal WAVELEN0 = 0" "ordinal BANK0 = 1" "ordinal BANK1 = 2" "ordinal CTRL = 3"
  "ordinal CTRL0 = 4" "ordinal CTRL1 = 5" "ordinal CTRL2 = 6" "ordinal CTRL3 = 7"
  "ordinal CTRL4 = 8" "ordinal CTRL5 = 9" "ordinal DETUNE = 10" "ordinal OCTSPREAD = 11"
  "ordinal METAMOD3 = 12" "ordinal METAMOD4 = 13" "ordinal METAMOD5 = 14"
  "ordinal METAMOD6 = 15" "ordinal METAMOD7 = 16" "ordinal METAMOD8 = 17"
  by (simp_all add: ordinal_def messageTypes_decl_def)

lemma ordinal_less_18: "ordinal k < 18"
  by (cases k) (simp_all add: ordinal_simps)

lemma unat_ordinal: "unat (of_nat (ordinal k) :: 8 word) = ordinal k"
  by (cases k) (simp_all add: ordinal_simps)

lemma unat_fold:
  "unat (ucast (v XOR drop_bit 16 v XOR ucast t) :: 16 word) = checksum_spec (unat v) (unat t)"
  for v :: "32 word" and t :: "8 word"
proof -
  have "unat t < 2 ^ 32"
    by (rule order_less_trans [OF unsigned_less]) simp
  then have t: "unat (ucast t :: 32 word) = unat t"
    by (simp add: unsigned_ucast_eq take_bit_nat_eq_self_iff)
  have "unat (ucast (v XOR drop_bit 16 v XOR ucast t) :: 16 word)
      = take_bit 16 (unat (v XOR drop_bit 16 v XOR ucast t))"
    by (simp add: unsigned_ucast_eq)
  also have "unat (v XOR drop_bit 16 v XOR ucast t) = unat v XOR drop_bit 16 (unat v) XOR unat t"
    by (simp only: unsigned_xor_eq unat_drop_bit_eq t)
  finally show ?thesis
    by (simp add: checksum_spec_def take_bit_eq_mod drop_bit_eq_div)
qed

lemma fold_xor:
  "(ucast ((v XOR w) XOR drop_bit 16 (v XOR w) XOR ucast t) :: 16 word)
     = ucast (v XOR drop_bit 16 v XOR ucast t) XOR ucast (w XOR drop_bit 16 w)"
  for v w :: "32 word" and t :: "8 word"
  by (rule bit_word_eqI) (auto simp add: bit_ucast_iff bit_xor_iff bit_drop_bit_eq)

lemma fold_single_bit:
  assumes "i < 32"
  shows "(ucast (push_bit i (1 :: 32 word) XOR drop_bit 16 (push_bit i 1)) :: 16 word) \<noteq> 0"
proof -
  let ?w = "ucast (push_bit i (1 :: 32 word) XOR drop_bit 16 (push_bit i 1)) :: 16 word"
  have "bit ?w (i mod 16)"
  proof (cases "i < 16")
    case True
    then show ?thesis
      by (simp add: bit_ucast_iff bit_xor_iff bit_drop_bit_eq bit_exp_iff)
  next
    case False
    with assms have "16 + i mod 16 = i" "i mod 16 \<noteq> i"
      by presburger+
    with assms show ?thesis
      by (simp add: bit_ucast_iff bit_xor_iff bit_drop_bit_eq bit_exp_iff)
  qed
  then show ?thesis
    by auto
qed

lemma fold_both_halves:
  "(ucast ((push_bit 16 (ucast m) OR ucast m)
       XOR drop_bit 16 (push_bit 16 (ucast m) OR ucast m :: 32 word)) :: 16 word) = 0"
  for m :: "16 word"
  by (rule bit_word_eqI)
    (auto simp add: bit_ucast_iff bit_xor_iff bit_or_iff bit_drop_bit_eq bit_push_bit_iff
      dest: bit_imp_le_length)

lemma low_half_of_both_halves:
  "ucast (push_bit 16 (ucast m) OR ucast m :: 32 word) = m" for m :: "16 word"
  by (rule bit_word_eqI) (auto simp add: bit_ucast_iff bit_or_iff bit_push_bit_iff)

lemma checksumIsOk_calcCheckSum: "fst (checksumIsOk (calcCheckSum msg))"
  by (simp add: checksumIsOk_def calcCheckSum_def Let_def)

lemma float32_isfinite_440: "float32_isfinite float_440"
  by (simp add: float32_isfinite_def float_440_def)

lemma float32_value_440: "float32_value float_440 = Some 440"
  by (simp add: float32_value_def float32_isfinite_def float_440_def)

lemma createMessage_float_checksumIsOk: "fst (checksumIsOk (createMessage_float msg x k))"
  unfolding createMessage_float_def by (rule checksumIsOk_calcCheckSum)

lemma createMessage_size_t_checksumIsOk: "fst (checksumIsOk (createMessage_size_t msg n k))"
  unfolding createMessage_size_t_def by (rule checksumIsOk_calcCheckSum)

lemma messageTypes_decl_UNIV: "set messageTypes_decl = UNIV"
proof -
  have "k \<in> set messageTypes_decl" for k
    by (cases k) (simp_all add: messageTypes_decl_def)
  then show ?thesis
    by auto
qed

lemma xor_nonzero_changes: "c XOR d \<noteq> c" if "d \<noteq> 0" for c d :: "'a::len word"
proof
  assume "c XOR d = c"
  then have "c XOR (c XOR d) = c XOR c"
    by (rule arg_cong)
  then have "d = 0"
    by (simp add: xor.assoc [symmetric])
  with that show False
    by simp
qed

lemma checksumIsOk_value:
  "fst (checksumIsOk msg)
     = (checksum msg = ucast (value msg XOR drop_bit 16 (value msg) XOR ucast (msgType msg)))"
  by (simp add: checksumIsOk_def Let_def uintValue_def)

lemma checksumIsOk_value_xor:
  "fst (checksumIsOk (msg\<lparr>value := value msg XOR w\<rparr>))
     = (checksum msg = ucast (value msg XOR drop_bit 16 (value msg) XOR ucast (msgType msg))
          XOR ucast (w XOR drop_bit 16 w))"
proof -
  have "fst (checksumIsOk (msg\<lparr>value := value msg XOR w\<rparr>))
     = (checksum msg
          = ucast ((value msg XOR w) XOR drop_bit 16 (value msg XOR w) XOR ucast (msgType msg)))"
    by (simp add: checksumIsOk_def Let_def uintValue_def)
  then show ?thesis
    by (simp only: fold_xor)
qed

lemma calcCheckSum_value:
  "checksum (calcCheckSum msg)
     = ucast (value msg XOR drop_bit 16 (value msg) XOR ucast (msgType msg))"
  by (simp add: calcCheckSum_def Let_def uintValue_def)

lemma calcCheckSum_value_xor:
  "checksum (calcCheckSum (msg\<lparr>value := value msg XOR w\<rparr>))
     = ucast (value msg XOR drop_bit 16 (value msg) XOR ucast (msgType msg))
         XOR ucast (w XOR drop_bit 16 w)"
proof -
  have "checksum (calcCheckSum (msg\<lparr>value := value msg XOR w\<rparr>))
     = ucast ((value msg XOR w) XOR drop_bit 16 (value msg XOR w) XOR ucast (msgType msg))"
    by (simp add: calcCheckSum_def Let_def uintValue_def)
  then show ?thesis
    by (simp only: fold_xor)
qed

lemma both_halves_nonzero:
  "(push_bit 16 (ucast m) OR ucast m :: 32 word) \<noteq> 0" if "m \<noteq> 0" for m :: "16 word"
proof
  assume "(push_bit 16 (ucast m) OR ucast m :: 32 word) = 0"
  then have "ucast (push_bit 16 (ucast m) OR ucast m :: 32 word) = (0 :: 16 word)"
    by simp
  with that show False
    by (simp only: low_half_of_both_halves)
qed

section \<open>Properties\<close>

text \<open>
  C2. Compute-checksum sets the checksum field to the low 16 bits of
  \<open>v XOR (v >> 16) XOR msgType\<close>, where \<open>v\<close> is the value field read as an unsigned
  32-bit number, whether the field was written as a float or as an unsigned integer, and
  it changes no other field.
\<close>

theorem calcCheckSum_spec:
  "unat (checksum (calcCheckSum msg)) = checksum_spec (unat (value msg)) (unat (msgType msg))
   \<and> unat (checksum (calcCheckSum (msg\<lparr>value := store_floatValue x\<rparr>)))
       = checksum_spec (unat (float_bits x)) (unat (msgType msg))
   \<and> unat (checksum (calcCheckSum (msg\<lparr>value := store_uintValue n\<rparr>)))
       = checksum_spec (unat n) (unat (msgType msg))
   \<and> calcCheckSum msg = msg\<lparr>checksum := checksum (calcCheckSum msg)\<rparr>"
  by (simp add: calcCheckSum_def Let_def uintValue_def store_floatValue_def store_uintValue_def
      unat_fold)

text \<open>
  C3. Round trip of the construction. For every finite float \<open>x\<close> and every kind
  \<open>k\<close>, the packet built by the float variant reads back, under the float
  interpretation, the very bit pattern of \<open>x\<close>, and its \<open>msgType\<close> is the ordinal
  of \<open>k\<close>; likewise for every 32-bit unsigned value \<open>n\<close> and the unsigned variant.
\<close>

theorem createMessage_round_trip:
  assumes "float32_isfinite x"
  shows "floatValue (value (createMessage_float msg x k)) = x
     \<and> float_bits (floatValue (value (createMessage_float msg x k))) = float_bits x
     \<and> unat (msgType (createMessage_float msg x k)) = ordinal k
     \<and> uintValue (value (createMessage_size_t msg n k)) = n
     \<and> unat (msgType (createMessage_size_t msg n k)) = ordinal k"
  by (simp add: createMessage_float_def createMessage_size_t_def calcCheckSum_def Let_def
      floatValue_def uintValue_def store_floatValue_def store_uintValue_def unat_ordinal)

theorem createMessage_round_trip_witness:
  "float32_isfinite float_440
   \<and> floatValue (value (createMessage_float (msgpacket_init 0 0 0) float_440 OCTSPREAD))
       = float_440
   \<and> unat (msgType (createMessage_float (msgpacket_init 0 0 0) float_440 OCTSPREAD)) = 11
   \<and> uintValue (value (createMessage_size_t (msgpacket_init 0 0 0) 0xFFFFFFFF OCTSPREAD))
       = 0xFFFFFFFF
   \<and> unat (msgType (createMessage_size_t (msgpacket_init 0 0 0) 0xFFFFFFFF OCTSPREAD)) = 11"
  using float32_isfinite_440
    createMessage_round_trip [OF float32_isfinite_440, of "msgpacket_init 0 0 0" OCTSPREAD
      "0xFFFFFFFF"]
  by (simp add: ordinal_simps)

text \<open>
  C4. Right after either construction, with any value and any kind, verify-checksum
  returns true. In particular the packet built in fresh storage from the float 440.0 and
  the kind DETUNE passes verify-checksum and verify-magic-byte, reads back as 440.0 and
  carries the ordinal 10.
\<close>

theorem checksumIsOk_after_createMessage:
  "fst (checksumIsOk (createMessage_float msg x k))
   \<and> fst (checksumIsOk (createMessage_size_t msg n k))
   \<and> fst (checksumIsOk (createMessage_float (msgpacket_init v0 t0 c0) float_440 DETUNE))
   \<and> fst (magicByteOk (createMessage_float (msgpacket_init v0 t0 c0) float_440 DETUNE))
   \<and> float32_value
        (floatValue (value (createMessage_float (msgpacket_init v0 t0 c0) float_440 DETUNE)))
       = Some 440
   \<and> unat (msgType (createMessage_float (msgpacket_init v0 t0 c0) float_440 DETUNE)) = 10"
proof -
  let ?m = "createMessage_float (msgpacket_init v0 t0 c0) float_440 DETUNE"
  have magic: "fst (magicByteOk ?m)"
    by (simp add: magicByteOk_def createMessage_float_def calcCheckSum_def Let_def
        msgpacket_init_def)
  have val: "floatValue (value ?m) = float_440"
    by (simp add: createMessage_float_def calcCheckSum_def Let_def floatValue_def
        store_floatValue_def)
  have kind: "unat (msgType ?m) = 10"
    by (simp add: createMessage_float_def calcCheckSum_def Let_def ordinal_simps)
  from magic kind show ?thesis
    by (simp only: val float32_value_440 createMessage_float_checksumIsOk
        createMessage_size_t_checksumIsOk simp_thms)
qed

text \<open>
  C5. Verify-checksum returns true exactly when the stored checksum is the one that
  compute-checksum would write for the packet's present value and msgType, and false
  otherwise. Its result is this boolean and nothing else: the function is total.
\<close>

theorem checksumIsOk_iff:
  "fst (checksumIsOk msg) = (checksum msg = checksum (calcCheckSum msg))"
  by (simp add: checksumIsOk_def calcCheckSum_def Let_def)

text \<open>
  C6. Verify-magic-byte returns true exactly when the magicByte field is 170. It returns
  true right after a construction in freshly declared storage, and false once the field
  holds any other value.
\<close>

theorem magicByteOk_iff:
  "fst (magicByteOk msg) = (magicByte msg = 170)
   \<and> fst (magicByteOk (createMessage_float (msgpacket_init v0 t0 c0) x k))
   \<and> fst (magicByteOk (createMessage_size_t (msgpacket_init v0 t0 c0) n k))
   \<and> (b \<noteq> 170 \<longrightarrow> \<not> fst (magicByteOk (msg\<lparr>magicByte := b\<rparr>)))"
  by (simp add: magicByteOk_def MAGIC_BYTE_def msgpacket_init_def createMessage_float_def
      createMessage_size_t_def calcCheckSum_def Let_def)

theorem magicByteOk_iff_witness:
  "(85 :: 8 word) \<noteq> 170
   \<and> \<not> fst (magicByteOk ((createMessage_float (msgpacket_init 0 0 0) float_440 DETUNE)
         \<lparr>magicByte := 85\<rparr>))
   \<and> fst (magicByteOk (createMessage_float (msgpacket_init 0 0 0) float_440 DETUNE))"
proof -
  have ne: "(85 :: 8 word) \<noteq> 170"
    by simp
  with magicByteOk_iff
    [of "createMessage_float (msgpacket_init 0 0 0) float_440 DETUNE" 0 0 0 float_440 DETUNE 0 85]
  show ?thesis
    by blast
qed

text \<open>
  C7, as stated: the enumeration does not have sixteen variants.
\<close>

theorem messageTypes_sixteen_counterexample:
  "card (UNIV :: messageTypes set) \<noteq> 16 \<and> length messageTypes_decl \<noteq> 16"
proof -
  have "card (set messageTypes_decl) = 18"
    by (simp add: messageTypes_decl_def)
  then have "card (UNIV :: messageTypes set) = 18"
    by (simp only: messageTypes_decl_UNIV)
  then show ?thesis
    by (simp add: messageTypes_decl_def)
qed

text \<open>
  C7, amended. The Message Kind enumeration consists of eighteen variants, with the
  ordinals 0 to 17 assigned in ascending order to WAVELEN0, BANK0, BANK1, CTRL, CTRL0,
  CTRL1, CTRL2, CTRL3, CTRL4, CTRL5, DETUNE, OCTSPREAD, METAMOD3, METAMOD4, METAMOD5,
  METAMOD6, METAMOD7, METAMOD8, in that order; there is no other variant.
\<close>

theorem messageTypes_eighteen:
  "messageTypes_decl =
     [WAVELEN0, BANK0, BANK1, CTRL, CTRL0, CTRL1, CTRL2, CTRL3, CTRL4, CTRL5, DETUNE,
      OCTSPREAD, METAMOD3, METAMOD4, METAMOD5, METAMOD6, METAMOD7, METAMOD8]
   \<and> map ordinal messageTypes_decl
       = [0, 1, 2, 3, 4, 5, 6, 7, 8, 9, 10, 11, 12, 13, 14, 15, 16, 17]
   \<and> set messageTypes_decl = UNIV
   \<and> distinct messageTypes_decl
   \<and> length messageTypes_decl = 18
   \<and> card (UNIV :: messageTypes set) = 18"
proof -
  have "map ordinal messageTypes_decl
      = [0, 1, 2, 3, 4, 5, 6, 7, 8, 9, 10, 11, 12, 13, 14, 15, 16, 17]"
    by (simp add: messageTypes_decl_def ordinal_simps)
  moreover have "distinct messageTypes_decl" "length messageTypes_decl = 18"
    by (simp_all add: messageTypes_decl_def)
  moreover have "card (set messageTypes_decl) = 18"
    by (simp add: messageTypes_decl_def)
  then have "card (UNIV :: messageTypes set) = 18"
    by (simp only: messageTypes_decl_UNIV)
  ultimately show ?thesis
    by (simp only: messageTypes_decl_UNIV simp_thms) (simp add: messageTypes_decl_def)
qed

text \<open>
  C8. Checksum sensitivity: in a packet built by either construction, flipping any single
  one of the 32 bits of the value field, with the stored checksum left as it is, makes
  verify-checksum return false.
\<close>

theorem single_bit_flip_detected:
  assumes "i < 32"
  shows "\<not> fst (checksumIsOk (flip_value_bit i (createMessage_float msg x k)))
     \<and> \<not> fst (checksumIsOk (flip_value_bit i (createMessage_size_t msg n k)))"
proof -
  have flip: "\<not> fst (checksumIsOk (flip_value_bit i m))" if "fst (checksumIsOk m)" for m
  proof -
    let ?c = "ucast (value m XOR drop_bit 16 (value m) XOR ucast (msgType m)) :: 16 word"
    let ?d = "ucast (push_bit i (1 :: 32 word) XOR drop_bit 16 (push_bit i 1)) :: 16 word"
    have "flip_value_bit i m = m\<lparr>value := value m XOR push_bit i 1\<rparr>"
      by (simp only: flip_value_bit_def flip_bit_eq_xor)
    then have "fst (checksumIsOk (flip_value_bit i m)) = (checksum m = ?c XOR ?d)"
      by (simp only: checksumIsOk_value_xor)
    moreover from that have "checksum m = ?c"
      by (simp only: checksumIsOk_value)
    moreover have "?c XOR ?d \<noteq> ?c"
      using fold_single_bit [OF assms] by (rule xor_nonzero_changes)
    ultimately show ?thesis
      by (simp only: simp_thms)
  qed
  show ?thesis
    by (simp add: flip createMessage_float_checksumIsOk createMessage_size_t_checksumIsOk)
qed

theorem single_bit_flip_detected_witness:
  "(19 :: nat) < 32
   \<and> \<not> fst (checksumIsOk (flip_value_bit 19
         (createMessage_float (msgpacket_init 0 0 0) float_440 DETUNE)))
   \<and> \<not> fst (checksumIsOk (flip_value_bit 19
         (createMessage_size_t (msgpacket_init 0 0 0) 1 DETUNE)))"
  using single_bit_flip_detected [of 19 "msgpacket_init 0 0 0" float_440 DETUNE 1]
  by simp

text \<open>
  C9. Frame conditions: either construction changes at most the fields value, msgType and
  checksum and leaves magicByte as it was; verify-checksum and verify-magic-byte leave the
  packet as it was.
\<close>

theorem frame_conditions:
  "createMessage_float msg x k
     = msg\<lparr>value := value (createMessage_float msg x k),
           msgType := msgType (createMessage_float msg x k),
           checksum := checksum (createMessage_float msg x k)\<rparr>
   \<and> magicByte (createMessage_float msg x k) = magicByte msg
   \<and> createMessage_size_t msg n k
     = msg\<lparr>value := value (createMessage_size_t msg n k),
           msgType := msgType (createMessage_size_t msg n k),
           checksum := checksum (createMessage_size_t msg n k)\<rparr>
   \<and> magicByte (createMessage_size_t msg n k) = magicByte msg
   \<and> snd (checksumIsOk msg) = msg
   \<and> snd (magicByteOk msg) = msg"
  by (simp add: createMessage_float_def createMessage_size_t_def calcCheckSum_def Let_def
      checksumIsOk_def magicByteOk_def)

text \<open>
  C10. Flipping the same bit positions \<open>m\<close> in the high and in the low half of the value
  field, with msgType and the stored checksum left as they are, does not change the
  recomputed checksum: verify-checksum answers as before, so a packet that passed still
  passes, although for a nonzero \<open>m\<close> its value has changed.
\<close>

theorem both_halves_flip_undetected:
  "checksum (calcCheckSum (flip_both_halves m msg)) = checksum (calcCheckSum msg)
   \<and> msgType (flip_both_halves m msg) = msgType msg
   \<and> checksum (flip_both_halves m msg) = checksum msg
   \<and> fst (checksumIsOk (flip_both_halves m msg)) = fst (checksumIsOk msg)
   \<and> (m \<noteq> 0 \<longrightarrow> value (flip_both_halves m msg) \<noteq> value msg)
   \<and> (m \<noteq> 0 \<longrightarrow> fst (checksumIsOk msg) \<longrightarrow> fst (checksumIsOk (flip_both_halves m msg)))"
proof -
  let ?w = "push_bit 16 (ucast m) OR ucast m :: 32 word"
  let ?c = "ucast (value msg XOR drop_bit 16 (value msg) XOR ucast (msgType msg)) :: 16 word"
  have eq: "flip_both_halves m msg = msg\<lparr>value := value msg XOR ?w\<rparr>"
    by (simp only: flip_both_halves_def)
  have "checksum (calcCheckSum (flip_both_halves m msg)) = ?c XOR ucast (?w XOR drop_bit 16 ?w)"
    by (simp only: eq calcCheckSum_value_xor)
  then have calc: "checksum (calcCheckSum (flip_both_halves m msg)) = checksum (calcCheckSum msg)"
    by (simp only: fold_both_halves) (simp add: calcCheckSum_value)
  have "fst (checksumIsOk (flip_both_halves m msg))
      = (checksum msg = ?c XOR ucast (?w XOR drop_bit 16 ?w))"
    by (simp only: eq checksumIsOk_value_xor)
  then have ok: "fst (checksumIsOk (flip_both_halves m msg)) = fst (checksumIsOk msg)"
    by (simp only: fold_both_halves) (simp add: checksumIsOk_value)
  have changed: "value (flip_both_halves m msg) \<noteq> value msg" if "m \<noteq> 0"
  proof -
    from that have "value msg XOR ?w \<noteq> value msg"
      by (intro xor_nonzero_changes both_halves_nonzero)
    then show ?thesis
      by (simp add: flip_both_halves_def)
  qed
  from calc ok changed show ?thesis
    by (simp add: flip_both_halves_def)
qed

theorem both_halves_flip_undetected_witness:
  "(0x0101 :: 16 word) \<noteq> 0
   \<and> fst (checksumIsOk (createMessage_float (msgpacket_init 0 0 0) float_440 DETUNE))
   \<and> value (createMessage_float (msgpacket_init 0 0 0) float_440 DETUNE) = 0x43DC0000
   \<and> value (flip_both_halves 0x0101 (createMessage_float (msgpacket_init 0 0 0) float_440 DETUNE))
       = 0x42DD0101
   \<and> fst (checksumIsOk
        (flip_both_halves 0x0101 (createMessage_float (msgpacket_init 0 0 0) float_440 DETUNE)))"
proof -
  let ?p = "createMessage_float (msgpacket_init 0 0 0) float_440 DETUNE"
  have ne: "(0x0101 :: 16 word) \<noteq> 0"
    by simp
  have ok: "fst (checksumIsOk ?p)"
    by (rule createMessage_float_checksumIsOk)
  have v: "value ?p = 0x43DC0000"
    by (simp add: createMessage_float_def calcCheckSum_def Let_def store_floatValue_def
        float_440_def)
  have v': "value (flip_both_halves 0x0101 ?p) = 0x42DD0101"
    by (simp add: flip_both_halves_def v)
  from ne ok v v' both_halves_flip_undetected [of "0x0101" ?p] show ?thesis
    by blast
qed

end
